theory Spec2Isabelle
  imports Main "HOL-Library.Word"
begin

section \<open>The library checklist component (libLabel.js)\<close>

subsection \<open>Strings and the three fixed label lists\<close>

text \<open>
  A JavaScript string is a sequence of 16-bit UTF-16 code units, and \<open>===\<close> on two
  strings compares these sequences. Every label of the source lies in the Hangul syllable
  block, so each syllable is one code unit.
\<close>

type_synonym jsstring = "16 word list"

text \<open>libName1, in source order (the names are romanised).\<close>

definition lib_jeonche :: jsstring where
  "lib_jeonche = [0xC804, 0xCCB4, 0xB3C4, 0xC11C, 0xAD00]"

definition lib_gangnam :: jsstring where
  "lib_gangnam = [0xAC15, 0xB0A8, 0xB3C4, 0xC11C, 0xAD00]"

definition lib_gangdong :: jsstring where
  "lib_gangdong = [0xAC15, 0xB3D9, 0xB3C4, 0xC11C, 0xAD00]"

definition lib_gangseo :: jsstring where
  "lib_gangseo = [0xAC15, 0xC11C, 0xB3C4, 0xC11C, 0xAD00]"

definition lib_gaepo :: jsstring where
  "lib_gaepo = [0xAC1C, 0xD3EC, 0xB3C4, 0xC11C, 0xAD00]"

definition lib_godeok :: jsstring where
  "lib_godeok = [0xACE0, 0xB355, 0xD559, 0xC2B5, 0xAD00]"

definition lib_gocheok :: jsstring where
  "lib_gocheok = [0xACE0, 0xCC99, 0xB3C4, 0xC11C, 0xAD00]"

text \<open>libName2.\<close>

definition lib_guro :: jsstring where
  "lib_guro = [0xAD6C, 0xB85C, 0xB3C4, 0xC11C, 0xAD00]"

definition lib_namsan :: jsstring where
  "lib_namsan = [0xB0A8, 0xC0B0, 0xB3C4, 0xC11C, 0xAD00]"

definition lib_nowon :: jsstring where
  "lib_nowon = [0xB178, 0xC6D0, 0xD559, 0xC2B5, 0xAD00]"

definition lib_dobong :: jsstring where
  "lib_dobong = [0xB3C4, 0xBD09, 0xB3C4, 0xC11C, 0xAD00]"

definition lib_dongdaemun :: jsstring where
  "lib_dongdaemun = [0xB3D9, 0xB300, 0xBB38, 0xB3C4, 0xC11C, 0xAD00]"

definition lib_dongjak :: jsstring where
  "lib_dongjak = [0xB3D9, 0xC791, 0xB3C4, 0xC11C, 0xAD00]"

definition lib_mapo :: jsstring where
  "lib_mapo = [0xB9C8, 0xD3EC, 0xD559, 0xC2B5, 0xAD00]"

text \<open>libName3.\<close>

definition lib_seodaemun :: jsstring where
  "lib_seodaemun = [0xC11C, 0xB300, 0xBB38, 0xB3C4, 0xC11C, 0xAD00]"

definition lib_songpa :: jsstring where
  "lib_songpa = [0xC1A1, 0xD30C, 0xB3C4, 0xC11C, 0xAD00]"

definition lib_yangcheon :: jsstring where
  "lib_yangcheon = [0xC591, 0xCC9C, 0xB3C4, 0xC11C, 0xAD00]"

definition lib_yeongdeungpo :: jsstring where
  "lib_yeongdeungpo = [0xC601, 0xB4F1, 0xD3EC, 0xB3C4, 0xC11C, 0xAD00]"

definition lib_yongsan :: jsstring where
  "lib_yongsan = [0xC6A9, 0xC0B0, 0xB3C4, 0xC11C, 0xAD00]"

definition lib_jeongdok :: jsstring where
  "lib_jeongdok = [0xC815, 0xB3C5, 0xB3C4, 0xC11C, 0xAD00]"

definition lib_jongno :: jsstring where
  "lib_jongno = [0xC885, 0xB85C, 0xB3C4, 0xC11C, 0xAD00]"

text \<open>
  A label that is in none of the three lists (the Busan library, code units
  BD80 C0B0 B3C4 C11C AD00): what a caller can pass although no checkbox is rendered
  for it.
\<close>

definition lib_busan :: jsstring where
  "lib_busan = [0xBD80, 0xC0B0, 0xB3C4, 0xC11C, 0xAD00]"

definition libName1 :: "jsstring list" where
  "libName1 = [lib_jeonche, lib_gangnam, lib_gangdong, lib_gangseo, lib_gaepo,
               lib_godeok, lib_gocheok]"

definition libName2 :: "jsstring list" where
  "libName2 = [lib_guro, lib_namsan, lib_nowon, lib_dobong, lib_dongdaemun,
               lib_dongjak, lib_mapo]"

definition libName3 :: "jsstring list" where
  "libName3 = [lib_seodaemun, lib_songpa, lib_yangcheon, lib_yeongdeungpo, lib_yongsan,
               lib_jeongdok, lib_jongno]"

subsection \<open>changeHandler\<close>

text \<open>
  \<open>changeHandler(checked, id)\<close> closes over \<open>setCheckedInputs\<close> and
  \<open>checkedInputs\<close>, the parameters of the enclosing \<open>CustomInput\<close>. Its only effect
  is one call of the setter, so the model returns what that call returns: the setter is a
  parameter, and the handler's result is the setter applied to the array the source
  builds. \<open>[...checkedInputs, id]\<close> is the old sequence followed by \<open>id\<close>;
  \<open>checkedInputs.filter((el) => el !== id)\<close> keeps, in order, the elements that
  differ from \<open>id\<close>.
\<close>

definition changeHandler ::
  "(jsstring list \<Rightarrow> 'r) \<Rightarrow> jsstring list \<Rightarrow> bool \<Rightarrow> jsstring \<Rightarrow> 'r" where
  "changeHandler setCheckedInputs checkedInputs checked id' =
     (if checked then setCheckedInputs (checkedInputs @ [id'])
      else setCheckedInputs (filter (\<lambda>el. el \<noteq> id') checkedInputs))"

subsection \<open>changeHandler on a store of array objects\<close>

text \<open>
  For the question whether the handler mutates the array it was given, arrays are objects
  in a store: a reference is an index into the list of allocated arrays. Both the spread
  literal and \<open>Array.prototype.filter\<close> allocate a new array and write nothing else;
  the setter receives the reference of the new array. A reference that was never
  allocated cannot occur in JavaScript; the model returns \<open>None\<close> for it.
\<close>

type_synonym ref = nat

type_synonym store = "jsstring list list"

definition deref :: "store \<Rightarrow> ref \<Rightarrow> jsstring list option" where
  "deref h r = (if r < length h then Some (h ! r) else None)"

definition new_array :: "store \<Rightarrow> jsstring list \<Rightarrow> store \<times> ref" where
  "new_array h xs = (h @ [xs], length h)"

definition changeHandler_store ::
  "store \<Rightarrow> ref \<Rightarrow> bool \<Rightarrow> jsstring \<Rightarrow> (store \<times> ref) option" where
  "changeHandler_store h checkedInputs checked id' =
     (case deref h checkedInputs of
        None \<Rightarrow> None
      | Some old \<Rightarrow>
          if checked then Some (new_array h (old @ [id']))
          else Some (new_array h (filter (\<lambda>el. el \<noteq> id') old)))"

subsection \<open>CustomInput and the rendered columns\<close>

text \<open>
  The change event, as far as the handler reads it: \<open>e.target.checked\<close> and
  \<open>e.target.id\<close>.
\<close>

record event =
  target_checked :: bool
  target_id :: jsstring

text \<open>
  What \<open>CustomInput(v, i, setCheckedInputs, checkedInputs)\<close> returns: the wrapper's
  React key, the input's \<open>id\<close>, the label's \<open>for\<close> and text, and the input's
  \<open>onChange\<close>.
\<close>

record 'r element =
  key :: nat
  input_id :: jsstring
  label_for :: jsstring
  label_text :: jsstring
  onChange :: "event \<Rightarrow> 'r"

definition CustomInput ::
  "jsstring \<Rightarrow> nat \<Rightarrow> (jsstring list \<Rightarrow> 'r) \<Rightarrow> jsstring list \<Rightarrow> 'r element" where
  "CustomInput v i setCheckedInputs checkedInputs =
     \<lparr> key = i, input_id = v, label_for = v, label_text = v,
       onChange = (\<lambda>e. changeHandler setCheckedInputs checkedInputs
                          (target_checked e) (target_id e)) \<rparr>"

text \<open>
  The three columns that \<open>Label\<close> returns: \<open>libNameK.map((val, i) => ...)\<close>, with
  the index shifted by 100 in the second and in the third column.
\<close>

definition Label_render ::
  "jsstring list \<Rightarrow> (jsstring list \<Rightarrow> 'r) \<Rightarrow> 'r element list list" where
  "Label_render checkedInputs setCheckedInputs =
     [map (\<lambda>(i, val). CustomInput val i setCheckedInputs checkedInputs)
        (enumerate 0 libName1),
      map (\<lambda>(i, val). CustomInput val (i + 100) setCheckedInputs checkedInputs)
        (enumerate 0 libName2),
      map (\<lambda>(i, val). CustomInput val (i + 100) setCheckedInputs checkedInputs)
        (enumerate 0 libName3)]"

subsection \<open>The document and the effect that runs after every render\<close>

text \<open>
  The document, as far as the effect reads and writes it: the \<open>checked\<close> property of
  the element found under each id. \<open>document.getElementById\<close> returns null for an id
  no element has, and for the empty string.
\<close>

type_synonym document = "jsstring \<rightharpoonup> bool"

datatype error = TypeError

definition getElementById :: "document \<Rightarrow> jsstring \<Rightarrow> bool option" where
  "getElementById doc id' = (if id' = [] then None else doc id')"

text \<open>
  \<open>checkedInputs.map((id) => { var a = document.getElementById(id); a.checked = true; })\<close>:
  the callback runs on the entries in order, and assigning to a property of null throws
  a TypeError, which ends the loop and the effect.
\<close>

fun resync :: "document \<Rightarrow> jsstring list \<Rightarrow> error + document" where
  "resync doc [] = Inr doc"
| "resync doc (id' # ids) =
     (case getElementById doc id' of
        None \<Rightarrow> Inl TypeError
      | Some a \<Rightarrow> resync (doc(id' \<mapsto> True)) ids)"

definition Label_effect :: "document \<Rightarrow> jsstring list \<Rightarrow> error + document" where
  "Label_effect doc checkedInputs =
     (if length checkedInputs \<noteq> 0 then resync doc checkedInputs else Inr doc)"

text \<open>
  The first render creates the inputs; an input rendered without a \<open>checked\<close> attribute
  starts unchecked. A later render keeps the elements (same type, same keys) and does not
  touch the \<open>checked\<close> property of these uncontrolled inputs. The effect has no
  dependency list, so it runs after either. The document of the first render holds the
  inputs of this component and nothing of the page around it; a page with further
  elements is a document passed to \<open>Label_rerender\<close>.
\<close>

definition fresh_document :: "'r element list list \<Rightarrow> document" where
  "fresh_document columns = map_of (map (\<lambda>el. (input_id el, False)) (concat columns))"

definition Label_mount ::
  "jsstring list \<Rightarrow> (jsstring list \<Rightarrow> 'r) \<Rightarrow> error + document" where
  "Label_mount checkedInputs setCheckedInputs =
     Label_effect (fresh_document (Label_render checkedInputs setCheckedInputs))
       checkedInputs"

definition Label_rerender :: "document \<Rightarrow> jsstring list \<Rightarrow> error + document" where
  "Label_rerender doc checkedInputs = Label_effect doc checkedInputs"

subsection \<open>A session: the parent's state and the user's clicks\<close>

text \<open>
  Modelled from the spec: the parent component, which is not in this file, owns the
  selection and passes a setter that replaces the current selection by the sequence it
  receives; the component is rendered again with the new selection before the next
  event is handled.
\<close>

definition setSelected :: "jsstring list \<Rightarrow> jsstring list" where
  "setSelected new = new"

record ui =
  page :: document
  selected :: "jsstring list"

definition all_labels :: "jsstring list" where
  "all_labels = libName1 @ libName2 @ libName3"

text \<open>
  A click on the checkbox with id \<open>l\<close>: the browser flips the input's \<open>checked\<close>
  property and then delivers the change event to the input's \<open>onChange\<close>; the setter
  replaces the selection, the component renders again and the effect runs. A click where
  no checkbox of the component is delivers nothing. The result carries the event that
  was delivered, for the history of a session.
\<close>

definition toggle :: "ui \<Rightarrow> jsstring \<Rightarrow> error + (ui \<times> event list)" where
  "toggle st l =
     (case find (\<lambda>el. input_id el = l)
             (concat (Label_render (selected st) setSelected)) of
        None \<Rightarrow> Inr (st, [])
      | Some el \<Rightarrow>
          (case getElementById (page st) (input_id el) of
             None \<Rightarrow> Inr (st, [])
           | Some c \<Rightarrow>
               let e = \<lparr> target_checked = \<not> c, target_id = input_id el \<rparr>;
                   new = onChange el e
               in (case Label_rerender ((page st)(input_id el \<mapsto> \<not> c)) new of
                     Inl err \<Rightarrow> Inl err
                   | Inr doc \<Rightarrow> Inr (\<lparr> page = doc, selected = new \<rparr>, [e]))))"

fun toggles :: "ui \<Rightarrow> event list \<Rightarrow> jsstring list \<Rightarrow> error + (ui \<times> event list)" where
  "toggles st log [] = Inr (st, log)"
| "toggles st log (l # ls) =
     (case toggle st l of
        Inl err \<Rightarrow> Inl err
      | Inr (st', es) \<Rightarrow> toggles st' (log @ es) ls)"

text \<open>
  A session: the component is mounted with the selection \<open>sel0\<close>, then the user clicks
  the checkboxes \<open>ls\<close> one after the other. It yields the final state and the change
  events delivered, oldest first.
\<close>

definition session :: "jsstring list \<Rightarrow> jsstring list \<Rightarrow> error + (ui \<times> event list)" where
  "session sel0 ls =
     (case Label_mount sel0 setSelected of
        Inl err \<Rightarrow> Inl err
      | Inr doc \<Rightarrow> toggles \<lparr> page = doc, selected = sel0 \<rparr> [] ls)"

definition outcome :: "error + (ui \<times> event list) \<Rightarrow> (jsstring list \<times> event list) option" where
  "outcome r = (case r of Inl err \<Rightarrow> None | Inr (st, log) \<Rightarrow> Some (selected st, log))"

subsection \<open>Reading a history of change events\<close>





definition events_for :: "event list \<Rightarrow> jsstring \<Rightarrow> event list" where
  "events_for log l = filter (\<lambda>e. target_id e = l) log"

fun alternates :: "bool \<Rightarrow> bool list \<Rightarrow> bool" where
  "alternates b [] = True"
| "alternates b (x # xs) = (x = b \<and> alternates (\<not> b) xs)"

subsection \<open>The invariant of a session\<close>

text \<open>
  What holds between the document, the selection and the history throughout a session
  mounted with \<open>sel0\<close>: every checkbox of the component is in the document and is
  checked exactly when its label is selected; the selection holds rendered labels only,
  each once; the events of one label alternate, the first being a check exactly when the
  label was not selected at the mount; and a label is selected exactly when its state
  was flipped an odd number of times if it started unselected, an even number if it
  started selected.
\<close>

definition consistent :: "jsstring list \<Rightarrow> ui \<Rightarrow> event list \<Rightarrow> bool" where
  "consistent sel0 st log \<longleftrightarrow>
     (\<forall>l. page st l = (if l \<in> set all_labels then Some (l \<in> set (selected st)) else None))
     \<and> set (selected st) \<subseteq> set all_labels
     \<and> distinct (selected st)
     \<and> (\<forall>l. alternates (l \<notin> set sel0) (map target_checked (events_for log l)))
     \<and> (\<forall>l. l \<in> set (selected st)
            \<longleftrightarrow> (l \<in> set sel0) \<noteq> odd (length (events_for log l)))"


section \<open>Properties\<close>

lemmas lib_defs =
  lib_jeonche_def lib_gangnam_def lib_gangdong_def lib_gangseo_def lib_gaepo_def
  lib_godeok_def lib_gocheok_def lib_guro_def lib_namsan_def lib_nowon_def
  lib_dobong_def lib_dongdaemun_def lib_dongjak_def lib_mapo_def lib_seodaemun_def
  lib_songpa_def lib_yangcheon_def lib_yeongdeungpo_def lib_yongsan_def
  lib_jeongdok_def lib_jongno_def lib_busan_def

lemmas libName_defs = libName1_def libName2_def libName3_def

lemmas model_defs = changeHandler_def CustomInput_def Label_render_def getElementById_def
  Label_effect_def fresh_document_def Label_mount_def Label_rerender_def setSelected_def
  all_labels_def toggle_def session_def outcome_def

subsection \<open>The rendered checkboxes and the effect\<close>

lemma rendered_ids:
  "map input_id (concat (Label_render s f)) = all_labels"
  by (simp add: Label_render_def CustomInput_def all_labels_def libName_defs)

lemma distinct_all_labels: "distinct all_labels"
  by (simp add: all_labels_def libName_defs lib_defs)

lemma empty_not_label: "[] \<notin> set all_labels"
  by (simp add: all_labels_def libName_defs lib_defs)

lemma fresh_document_eq:
  "fresh_document (Label_render s f) l = (if l \<in> set all_labels then Some False else None)"
proof -
  have "map (\<lambda>el. (input_id el, False)) (concat (Label_render s f))
          = map (\<lambda>l. (l, False)) (map input_id (concat (Label_render s f)))"
    by (simp add: comp_def)
  then have "fresh_document (Label_render s f) = map_of (map (\<lambda>l. (l, False)) all_labels)"
    by (simp only: fresh_document_def rendered_ids)
  then show ?thesis
    by (simp add: map_of_map_restrict restrict_map_def)
qed

lemma resync_complete:
  "\<forall>l\<in>set ids. getElementById doc l \<noteq> None \<Longrightarrow>
   resync doc ids = Inr (\<lambda>x. if x \<in> set ids then Some True else doc x)"
proof (induction ids arbitrary: doc)
  case Nil
  then show ?case by simp
next
  case (Cons a ids)
  from Cons.prems obtain c where a: "getElementById doc a = Some c"
    by auto
  have "\<forall>l\<in>set ids. getElementById (doc(a \<mapsto> True)) l \<noteq> None"
    using Cons.prems by (auto simp: getElementById_def)
  then have "resync (doc(a \<mapsto> True)) ids
               = Inr (\<lambda>x. if x \<in> set ids then Some True else (doc(a \<mapsto> True)) x)"
    by (rule Cons.IH)
  moreover have "(\<lambda>x. if x \<in> set ids then Some True else (doc(a \<mapsto> True)) x)
                   = (\<lambda>x. if x \<in> set (a # ids) then Some True else doc x)"
    by (rule ext) simp
  ultimately show ?case
    using a by simp
qed

lemma resync_fault:
  "\<exists>l\<in>set ids. getElementById doc l = None \<Longrightarrow> resync doc ids = Inl TypeError"
proof (induction ids arbitrary: doc)
  case Nil
  then show ?case by simp
next
  case (Cons a ids)
  show ?case
  proof (cases "getElementById doc a")
    case None
    then show ?thesis by simp
  next
    case (Some c)
    with Cons.prems obtain l where l: "l \<in> set ids" "getElementById doc l = None"
      by auto
    then have "getElementById (doc(a \<mapsto> True)) l = None"
      using Some by (auto simp: getElementById_def split: if_splits)
    with l have "\<exists>l\<in>set ids. getElementById (doc(a \<mapsto> True)) l = None"
      by blast
    then have "resync (doc(a \<mapsto> True)) ids = Inl TypeError"
      by (rule Cons.IH)
    with Some show ?thesis
      by simp
  qed
qed

lemma resync_Inr_iff:
  "resync doc ids = Inr doc' \<longleftrightarrow>
     (\<forall>l\<in>set ids. getElementById doc l \<noteq> None)
     \<and> doc' = (\<lambda>x. if x \<in> set ids then Some True else doc x)"
proof (cases "\<forall>l\<in>set ids. getElementById doc l \<noteq> None")
  case True
  then show ?thesis by (auto simp: resync_complete)
next
  case False
  then have "resync doc ids = Inl TypeError"
    by (intro resync_fault) auto
  with False show ?thesis by auto
qed

lemma Label_effect_Inr_iff:
  "Label_effect doc ids = Inr doc' \<longleftrightarrow>
     (\<forall>l\<in>set ids. getElementById doc l \<noteq> None)
     \<and> doc' = (\<lambda>x. if x \<in> set ids then Some True else doc x)"
  by (cases ids) (auto simp: Label_effect_def resync_Inr_iff simp del: resync.simps)

lemma fresh_getElementById:
  "getElementById (fresh_document (Label_render s f)) l
     = (if l \<in> set all_labels then Some False else None)"
  using empty_not_label by (auto simp: getElementById_def fresh_document_eq)

lemma Label_mount_Inr_iff:
  "Label_mount sel f = Inr doc' \<longleftrightarrow>
     set sel \<subseteq> set all_labels
     \<and> doc' = (\<lambda>x. if x \<in> set all_labels then Some (x \<in> set sel) else None)"
proof -
  have "(\<forall>l\<in>set sel. getElementById (fresh_document (Label_render sel f)) l \<noteq> None)
          \<longleftrightarrow> set sel \<subseteq> set all_labels"
    by (auto simp: fresh_getElementById)
  moreover have "set sel \<subseteq> set all_labels \<Longrightarrow>
      (\<lambda>x. if x \<in> set sel then Some True else fresh_document (Label_render sel f) x)
        = (\<lambda>x. if x \<in> set all_labels then Some (x \<in> set sel) else None)"
    by (rule ext) (auto simp: fresh_document_eq)
  ultimately show ?thesis
    unfolding Label_mount_def Label_effect_Inr_iff by auto
qed

lemma find_Some_member: "find P xs = Some x \<Longrightarrow> P x \<and> x \<in> set xs"
  by (induction xs) (auto split: if_splits)

lemma find_rendered:
  assumes "l \<in> set all_labels"
  shows "\<exists>i. find (\<lambda>el. input_id el = l) (concat (Label_render s f)) = Some (CustomInput l i f s)"
proof -
  have "input_id ` set (concat (Label_render s f)) = set all_labels"
    using rendered_ids [of s f] by (metis set_map)
  with assms have "l \<in> input_id ` set (concat (Label_render s f))"
    by simp
  then have "find (\<lambda>el. input_id el = l) (concat (Label_render s f)) \<noteq> None"
    by (auto simp: find_None_iff)
  then obtain el where el: "find (\<lambda>el. input_id el = l) (concat (Label_render s f)) = Some el"
    by auto
  then have "input_id el = l \<and> el \<in> set (concat (Label_render s f))"
    by (rule find_Some_member)
  then obtain i where "el = CustomInput l i f s"
    by (auto simp: Label_render_def CustomInput_def simp del: set_concat)
  with el show ?thesis by blast
qed

lemma find_not_rendered:
  assumes "l \<notin> set all_labels"
  shows "find (\<lambda>el. input_id el = l) (concat (Label_render s f)) = None"
proof -
  have "input_id ` set (concat (Label_render s f)) = set all_labels"
    using rendered_ids [of s f] by (metis set_map)
  with assms have "l \<notin> input_id ` set (concat (Label_render s f))"
    by simp
  then show ?thesis
    by (auto simp: find_None_iff)
qed

lemma toggle_not_rendered:
  "l \<notin> set all_labels \<Longrightarrow> toggle st l = Inr (st, [])"
  by (simp add: toggle_def find_not_rendered)

lemma toggle_rendered:
  assumes "l \<in> set all_labels" and "page st l = Some c"
  shows "toggle st l =
     (case Label_rerender ((page st)(l \<mapsto> \<not> c))
             (changeHandler setSelected (selected st) (\<not> c) l) of
        Inl err \<Rightarrow> Inl err
      | Inr doc \<Rightarrow>
          Inr (\<lparr> page = doc, selected = changeHandler setSelected (selected st) (\<not> c) l \<rparr>,
               [\<lparr> target_checked = \<not> c, target_id = l \<rparr>]))"
proof -
  from find_rendered [OF assms(1)] obtain i where
    "find (\<lambda>el. input_id el = l) (concat (Label_render (selected st) setSelected))
       = Some (CustomInput l i setSelected (selected st))"
    by blast
  moreover have "l \<noteq> []"
    using assms(1) empty_not_label by auto
  ultimately show ?thesis
    using assms(2)
    by (simp add: toggle_def getElementById_def CustomInput_def Let_def split: sum.splits)
qed

lemma alternates_snoc:
  "alternates b (xs @ [x]) \<longleftrightarrow> alternates b xs \<and> x = (b = even (length xs))"
  by (induction xs arbitrary: b) auto

lemma events_for_snoc:
  "events_for (log @ [e]) l = events_for log l @ (if target_id e = l then [e] else [])"
  by (simp add: events_for_def)





lemma consistent_toggle:
  assumes inv: "consistent sel0 st log"
  shows "\<exists>st' es. toggle st l = Inr (st', es) \<and> consistent sel0 st' (log @ es)"
proof (cases "l \<in> set all_labels")
  case False
  then show ?thesis
    using inv by (simp add: toggle_not_rendered)
next
  case True
  let ?sel = "selected st"
  let ?c = "l \<in> set ?sel"
  let ?new = "changeHandler setSelected ?sel (\<not> ?c) l"
  let ?e = "\<lparr> target_checked = \<not> ?c, target_id = l \<rparr>"
  from inv have pg: "\<And>x. page st x = (if x \<in> set all_labels then Some (x \<in> set ?sel) else None)"
    and sub: "set ?sel \<subseteq> set all_labels" and dist: "distinct ?sel"
    and alt: "\<And>x. alternates (x \<notin> set sel0) (map target_checked (events_for log x))"
    and par: "\<And>x. x \<in> set ?sel \<longleftrightarrow> (x \<in> set sel0) \<noteq> odd (length (events_for log x))"
    by (auto simp: consistent_def)
  have new: "set ?new = (if ?c then set ?sel - {l} else insert l (set ?sel))"
    by (auto simp: changeHandler_def setSelected_def)
  have new_sub: "set ?new \<subseteq> set all_labels"
    using sub True by (auto simp: new)
  have new_dist: "distinct ?new"
    using dist by (auto simp: changeHandler_def setSelected_def)
  let ?doc1 = "(page st)(l \<mapsto> \<not> ?c)"
  let ?doc2 = "\<lambda>x. if x \<in> set ?new then Some True else ?doc1 x"
  have present: "\<forall>x\<in>set ?new. getElementById ?doc1 x \<noteq> None"
    using new_sub empty_not_label by (auto simp: getElementById_def pg)
  then have rer: "Label_rerender ?doc1 ?new = Inr ?doc2"
    by (simp add: Label_rerender_def Label_effect_Inr_iff)
  have "page st l = Some ?c"
    using True by (simp add: pg)
  from toggle_rendered [OF True this] rer
  have tog: "toggle st l = Inr (\<lparr> page = ?doc2, selected = ?new \<rparr>, [?e])"
    by simp
  have doc2: "\<And>x. ?doc2 x = (if x \<in> set all_labels then Some (x \<in> set ?new) else None)"
  proof -
    fix x
    show "?doc2 x = (if x \<in> set all_labels then Some (x \<in> set ?new) else None)"
    proof (cases "x = l")
      case True
      then show ?thesis using \<open>l \<in> set all_labels\<close> by (simp add: new)
    next
      case False
      then show ?thesis using sub by (auto simp: pg new)
    qed
  qed
  have alt': "\<And>x. alternates (x \<notin> set sel0) (map target_checked (events_for (log @ [?e]) x))"
  proof -
    fix x
    show "alternates (x \<notin> set sel0) (map target_checked (events_for (log @ [?e]) x))"
    proof (cases "x = l")
      case True
      have "(l \<notin> set ?sel) = ((l \<notin> set sel0) = even (length (events_for log l)))"
        using par [of l] by auto
      then show ?thesis
        using alt [of l] True by (simp add: events_for_snoc alternates_snoc)
    next
      case False
      then show ?thesis
        using alt [of x] by (simp add: events_for_snoc)
    qed
  qed
  have par': "\<And>x. x \<in> set ?new
                \<longleftrightarrow> (x \<in> set sel0) \<noteq> odd (length (events_for (log @ [?e]) x))"
  proof -
    fix x
    show "x \<in> set ?new \<longleftrightarrow> (x \<in> set sel0) \<noteq> odd (length (events_for (log @ [?e]) x))"
    proof (cases "x = l")
      case True
      have "l \<in> set ?new \<longleftrightarrow> l \<notin> set ?sel"
        by (simp add: new)
      moreover have "length (events_for (log @ [?e]) l) = Suc (length (events_for log l))"
        by (simp add: events_for_snoc)
      ultimately show ?thesis
        using par [of l] True by auto
    next
      case False
      then show ?thesis
        using par [of x] by (simp add: events_for_snoc new)
    qed
  qed
  have "consistent sel0 \<lparr> page = ?doc2, selected = ?new \<rparr> (log @ [?e])"
    unfolding consistent_def using doc2 new_sub new_dist alt' par' by simp
  with tog show ?thesis by blast
qed

lemma consistent_toggles:
  "consistent sel0 st log \<Longrightarrow>
   \<exists>st' log'. toggles st log ls = Inr (st', log') \<and> consistent sel0 st' log'"
proof (induction ls arbitrary: st log)
  case Nil
  then show ?case by simp
next
  case (Cons l ls)
  from consistent_toggle [OF Cons.prems] obtain st1 es
    where 1: "toggle st l = Inr (st1, es)" and 2: "consistent sel0 st1 (log @ es)"
    by blast
  from Cons.IH [OF 2] 1 show ?case
    by simp
qed

lemma consistent_mount:
  assumes "distinct sel0" and "set sel0 \<subseteq> set all_labels"
  shows "\<exists>doc. Label_mount sel0 setSelected = Inr doc
           \<and> consistent sel0 \<lparr> page = doc, selected = sel0 \<rparr> []"
  using assms by (simp add: Label_mount_Inr_iff consistent_def events_for_def)

lemma consistent_session:
  assumes "distinct sel0" and "set sel0 \<subseteq> set all_labels"
  shows "\<exists>st log. session sel0 ls = Inr (st, log) \<and> consistent sel0 st log"
proof -
  from consistent_mount [OF assms] obtain doc
    where 1: "Label_mount sel0 setSelected = Inr doc"
      and 2: "consistent sel0 \<lparr> page = doc, selected = sel0 \<rparr> []"
    by blast
  from consistent_toggles [OF 2, of ls] 1 show ?thesis
    by (simp add: session_def)
qed



subsection \<open>The toggle handler\<close>

text \<open>
  C5. A change event with checked = true for the label \<open>l\<close> makes the handler call the
  setter with the old selection followed by \<open>l\<close>, whatever the old selection is and
  through whichever checkbox the event arrives; checking the Gangnam library from the
  empty selection gives the selection holding just that label.
\<close>

theorem check_appends:
  "onChange (CustomInput v i setCheckedInputs s) \<lparr> target_checked = True, target_id = l \<rparr>
     = setCheckedInputs (s @ [l])
   \<and> changeHandler setCheckedInputs s True l = setCheckedInputs (s @ [l])
   \<and> changeHandler setSelected [] True lib_gangnam = [lib_gangnam]"
  by (simp add: CustomInput_def changeHandler_def setSelected_def)

text \<open>
  C6. A change event with checked = false for the label \<open>l\<close> makes the handler call
  the setter with the old selection from which every occurrence of \<open>l\<close> is removed, the
  other entries staying in their order (\<^const>\<open>removeAll\<close>); unchecking the Gangnam
  library in the selection of the Gangnam library and the Nowon learning centre leaves
  the Nowon learning centre.
\<close>

theorem uncheck_removes:
  "onChange (CustomInput v i setCheckedInputs s) \<lparr> target_checked = False, target_id = l \<rparr>
     = setCheckedInputs (removeAll l s)
   \<and> changeHandler setCheckedInputs s False l = setCheckedInputs (removeAll l s)
   \<and> changeHandler setSelected [lib_gangnam, lib_nowon] False lib_gangnam = [lib_nowon]"
proof -
  have "filter (\<lambda>el. el \<noteq> l) s = removeAll l s"
    by (induction s) auto
  then show ?thesis
    by (simp add: CustomInput_def changeHandler_def setSelected_def lib_defs)
qed

text \<open>
  C4, as claimed, fails: checking and then unchecking a label that the selection already
  holds removes the occurrence that was there before. From the selection holding the
  Gangnam library, check and uncheck of the Gangnam library end in the empty selection.
\<close>

theorem check_uncheck_counterexample:
  "changeHandler setSelected (changeHandler setSelected [lib_gangnam] True lib_gangnam)
     False lib_gangnam = []
   \<and> changeHandler setSelected (changeHandler setSelected [lib_gangnam] True lib_gangnam)
       False lib_gangnam \<noteq> [lib_gangnam]"
  by (simp add: changeHandler_def setSelected_def)

text \<open>
  C4, amended. For every selection \<open>s\<close> and every label \<open>l\<close> that does not occur in
  \<open>s\<close>, the check of \<open>l\<close> followed by the uncheck of \<open>l\<close> gives \<open>s\<close> back,
  whichever other labels \<open>s\<close> holds.
\<close>

theorem check_uncheck_roundtrip:
  assumes "l \<notin> set s"
  shows "changeHandler setSelected (changeHandler setSelected s True l) False l = s"
proof -
  from assms have "filter (\<lambda>el. el \<noteq> l) s = s"
    by (induction s) auto
  then show ?thesis
    by (simp add: changeHandler_def setSelected_def)
qed

theorem check_uncheck_roundtrip_witness:
  "lib_gangnam \<notin> set [lib_nowon]
   \<and> changeHandler setSelected (changeHandler setSelected [lib_nowon] True lib_gangnam)
       False lib_gangnam = [lib_nowon]"
proof -
  have h: "lib_gangnam \<notin> set [lib_nowon]"
    by (simp add: lib_defs)
  from check_uncheck_roundtrip [OF h] h show ?thesis by simp
qed

text \<open>
  C3, as claimed, fails: the handler appends on every checked = true event and does not
  look whether the label is there already. Two such events in a row for the Gangnam
  library, from the empty selection, leave the label twice in the selection.
\<close>

theorem double_check_counterexample:
  "changeHandler setSelected (changeHandler setSelected [] True lib_gangnam) True lib_gangnam
     = [lib_gangnam, lib_gangnam]
   \<and> count_list
        (changeHandler setSelected (changeHandler setSelected [] True lib_gangnam) True
           lib_gangnam) lib_gangnam = 2"
  by (simp add: changeHandler_def setSelected_def)

text \<open>
  C3, amended. When the change events come from the checkboxes, as they do in a session
  mounted with a selection of rendered labels without duplicates, the events of one
  label alternate between checked = true and checked = false (starting with true exactly
  when the label was not selected at the mount), so two checked = true events in a row
  for one label do not arise, the session never faults, and no label is in the selection
  more than once.
\<close>

theorem toggles_alternate:
  assumes "distinct sel0" and "set sel0 \<subseteq> set all_labels"
  shows "\<exists>st log. session sel0 ls = Inr (st, log)
           \<and> distinct (selected st)
           \<and> (\<forall>l. alternates (l \<notin> set sel0) (map target_checked (events_for log l)))"
proof -
  from consistent_session [OF assms, of ls] obtain st log
    where "session sel0 ls = Inr (st, log)" and "consistent sel0 st log"
    by blast
  then show ?thesis
    by (auto simp: consistent_def)
qed

theorem toggles_alternate_witness:
  "distinct [lib_jongno] \<and> set [lib_jongno] \<subseteq> set all_labels
   \<and> outcome (session [lib_jongno] [lib_guro, lib_guro, lib_jongno, lib_guro])
       = Some ([lib_guro],
               [\<lparr> target_checked = True, target_id = lib_guro \<rparr>,
                \<lparr> target_checked = False, target_id = lib_guro \<rparr>,
                \<lparr> target_checked = False, target_id = lib_jongno \<rparr>,
                \<lparr> target_checked = True, target_id = lib_guro \<rparr>])
   \<and> alternates (lib_guro \<notin> set [lib_jongno])
        (map target_checked (events_for
               [\<lparr> target_checked = True, target_id = lib_guro \<rparr>,
                \<lparr> target_checked = False, target_id = lib_guro \<rparr>,
                \<lparr> target_checked = False, target_id = lib_jongno \<rparr>,
                \<lparr> target_checked = True, target_id = lib_guro \<rparr>] lib_guro))"
proof -
  have h1: "distinct [lib_jongno]"
    by simp
  have h2: "set [lib_jongno] \<subseteq> set all_labels"
    by (simp add: all_labels_def libName_defs)
  from toggles_alternate [OF h1 h2, of "[lib_guro, lib_guro, lib_jongno, lib_guro]"] h1 h2
  show ?thesis
    by (simp add: model_defs libName_defs lib_defs Let_def events_for_def)
qed

text \<open>
  C10. On the store of array objects, either branch of the handler hands the setter a
  reference that did not exist before, whose array holds the new selection, and every
  array that existed before, the old selection among them, is what it was.
\<close>

theorem handler_allocates:
  assumes "deref h r = Some old"
  shows "\<exists>h' r'. changeHandler_store h r checked l = Some (h', r')
           \<and> deref h' r = Some old
           \<and> take (length h) h' = h
           \<and> r' \<noteq> r \<and> deref h r' = None
           \<and> deref h' r' = Some (changeHandler setSelected old checked l)"
  using assms
  by (auto simp: changeHandler_store_def new_array_def deref_def changeHandler_def
      setSelected_def nth_append split: if_splits)

theorem handler_allocates_witness:
  "deref [[lib_gangnam]] 0 = Some [lib_gangnam]
   \<and> changeHandler_store [[lib_gangnam]] 0 True lib_nowon
        = Some ([[lib_gangnam], [lib_gangnam, lib_nowon]], 1)
   \<and> deref [[lib_gangnam], [lib_gangnam, lib_nowon]] 0 = Some [lib_gangnam]"
proof -
  have h: "deref [[lib_gangnam]] 0 = Some [lib_gangnam]"
    by (simp add: deref_def)
  from handler_allocates [OF h, of True lib_nowon] h show ?thesis
    by (auto simp: changeHandler_store_def new_array_def deref_def)
qed

subsection \<open>What CustomInput renders\<close>

text \<open>
  C9. Every checkbox that \<open>Label\<close> renders has its label string as the \<open>id\<close> of
  the input (and as the \<open>for\<close> of the label element), and a change event of that
  input runs the handler on this label string. The labels are the three lists in order;
  the indices are 0 to 6 in the first column and 100 to 106 in the second and third. The
  index is the React key and nothing else: two calls of \<open>CustomInput\<close> that differ in
  the index alone have the same \<open>id\<close> and the same handler, and are equal once the
  key is overwritten.
\<close>

theorem label_is_identifier:
  "(\<forall>el\<in>set (concat (Label_render s f)).
      input_id el = label_text el \<and> label_for el = label_text el
      \<and> onChange el \<lparr> target_checked = c, target_id = input_id el \<rparr>
          = changeHandler f s c (label_text el))
   \<and> map (map label_text) (Label_render s f) = [libName1, libName2, libName3]
   \<and> map (map key) (Label_render s f)
       = [[0, 1, 2, 3, 4, 5, 6], [100, 101, 102, 103, 104, 105, 106],
          [100, 101, 102, 103, 104, 105, 106]]
   \<and> input_id (CustomInput v i f s) = v
   \<and> onChange (CustomInput v i f s) = onChange (CustomInput v j f s)
   \<and> (CustomInput v i f s) \<lparr> key := k \<rparr> = (CustomInput v j f s) \<lparr> key := k \<rparr>"
proof (intro conjI ballI)
  fix el :: "'a element"
  assume "el \<in> set (concat (Label_render s f))"
  then obtain v' i' where el: "el = CustomInput v' i' f s"
    by (auto simp: Label_render_def)
  show "input_id el = label_text el" "label_for el = label_text el"
    "onChange el \<lparr> target_checked = c, target_id = input_id el \<rparr>
       = changeHandler f s c (label_text el)"
    by (simp_all add: el CustomInput_def)
next
  show "map (map label_text) (Label_render s f) = [libName1, libName2, libName3]"
    by (simp add: Label_render_def CustomInput_def libName_defs)
  show "map (map key) (Label_render s f)
       = [[0, 1, 2, 3, 4, 5, 6], [100, 101, 102, 103, 104, 105, 106],
          [100, 101, 102, 103, 104, 105, 106]]"
    by (simp add: Label_render_def CustomInput_def libName_defs)
qed (simp_all add: CustomInput_def)

theorem label_is_identifier_witness:
  "CustomInput lib_namsan 101 setSelected [lib_guro] \<in> set (concat (Label_render [lib_guro] setSelected))
   \<and> input_id (CustomInput lib_namsan 101 setSelected [lib_guro]) = lib_namsan
   \<and> onChange (CustomInput lib_namsan 101 setSelected [lib_guro])
        \<lparr> target_checked = True, target_id = lib_namsan \<rparr> = [lib_guro, lib_namsan]
   \<and> onChange (CustomInput lib_namsan 1 setSelected [lib_guro])
        \<lparr> target_checked = True, target_id = lib_namsan \<rparr> = [lib_guro, lib_namsan]"
proof -
  have h: "CustomInput lib_namsan 101 setSelected [lib_guro]
             \<in> set (concat (Label_render [lib_guro] setSelected))"
    by (simp add: Label_render_def libName_defs)
  from label_is_identifier [of "[lib_guro]" setSelected True lib_namsan 101 1 0] h
  show ?thesis
    by (simp add: CustomInput_def changeHandler_def setSelected_def)
qed

subsection \<open>The effect after a render\<close>

text \<open>
  C2: the effect does not skip an entry that has no element. Mounted with the selection
  of the Busan library, which has no checkbox, and the Jongno library, which has one,
  the effect ends in the TypeError of the first entry, and the Jongno library's checkbox
  is never reached.
\<close>

theorem missing_element_faults:
  "Label_mount [lib_busan, lib_jongno] setSelected = Inl TypeError
   \<and> getElementById (fresh_document (Label_render [lib_busan, lib_jongno] setSelected))
       lib_busan = None
   \<and> getElementById (fresh_document (Label_render [lib_busan, lib_jongno] setSelected))
       lib_jongno = Some False"
  by (simp add: model_defs libName_defs lib_defs)

text \<open>
  What the effect does when every label in the selection has an element in the document
  (for the first render: when every label is one of the 21 rendered ones): it completes,
  and the element of every label in the selection is checked afterwards. Mounted with
  the Jongno library selected, the component shows that checkbox checked with no click.
\<close>

theorem selected_are_checked:
  "((\<forall>l\<in>set sel. getElementById doc l \<noteq> None) \<longrightarrow>
      (\<exists>doc'. Label_rerender doc sel = Inr doc'
         \<and> (\<forall>l\<in>set sel. getElementById doc' l = Some True)))
   \<and> (set sel \<subseteq> set all_labels \<longrightarrow>
      (\<exists>doc'. Label_mount sel f = Inr doc'
         \<and> (\<forall>l\<in>set sel. getElementById doc' l = Some True)))
   \<and> (\<exists>doc'. Label_mount [lib_jongno] f = Inr doc'
         \<and> getElementById doc' lib_jongno = Some True)"
proof (intro conjI impI)
  assume present: "\<forall>l\<in>set sel. getElementById doc l \<noteq> None"
  let ?doc' = "\<lambda>x. if x \<in> set sel then Some True else doc x"
  have "Label_rerender doc sel = Inr ?doc'"
    using present by (simp add: Label_rerender_def Label_effect_Inr_iff)
  moreover have "\<forall>l\<in>set sel. getElementById ?doc' l = Some True"
    using present by (auto simp: getElementById_def)
  ultimately show "\<exists>doc'. Label_rerender doc sel = Inr doc'
      \<and> (\<forall>l\<in>set sel. getElementById doc' l = Some True)"
    by blast
next
  assume sub: "set sel \<subseteq> set all_labels"
  let ?doc' = "\<lambda>x. if x \<in> set all_labels then Some (x \<in> set sel) else None"
  have "Label_mount sel f = Inr ?doc'"
    using sub by (simp add: Label_mount_Inr_iff)
  moreover have "\<forall>l\<in>set sel. getElementById ?doc' l = Some True"
    using sub empty_not_label by (auto simp: getElementById_def)
  ultimately show "\<exists>doc'. Label_mount sel f = Inr doc'
      \<and> (\<forall>l\<in>set sel. getElementById doc' l = Some True)"
    by blast
next
  let ?doc' = "\<lambda>x. if x \<in> set all_labels then Some (x \<in> set [lib_jongno]) else None"
  have in_labels: "lib_jongno \<in> set all_labels"
    by (simp add: all_labels_def libName_defs)
  then have "Label_mount [lib_jongno] f = Inr ?doc'"
    by (simp add: Label_mount_Inr_iff)
  moreover have "getElementById ?doc' lib_jongno = Some True"
    using in_labels by (simp add: getElementById_def lib_jongno_def)
  ultimately show "\<exists>doc'. Label_mount [lib_jongno] f = Inr doc'
      \<and> getElementById doc' lib_jongno = Some True"
    by blast
qed

theorem selected_are_checked_witness:
  "set [lib_guro, lib_mapo] \<subseteq> set all_labels
   \<and> Label_mount [lib_guro, lib_mapo] setSelected
       = Inr ((fresh_document (Label_render [lib_guro, lib_mapo] setSelected))
                (lib_guro \<mapsto> True, lib_mapo \<mapsto> True))
   \<and> getElementById ((fresh_document (Label_render [lib_guro, lib_mapo] setSelected))
                (lib_guro \<mapsto> True, lib_mapo \<mapsto> True)) lib_mapo = Some True
   \<and> getElementById ((fresh_document (Label_render [lib_guro, lib_mapo] setSelected))
                (lib_guro \<mapsto> True)) lib_mapo = Some False
   \<and> Label_rerender ((fresh_document (Label_render [lib_guro, lib_mapo] setSelected))
                (lib_guro \<mapsto> True)) [lib_guro, lib_mapo]
       = Inr ((fresh_document (Label_render [lib_guro, lib_mapo] setSelected))
                (lib_guro \<mapsto> True, lib_guro \<mapsto> True, lib_mapo \<mapsto> True))"
proof -
  have h: "set [lib_guro, lib_mapo] \<subseteq> set all_labels"
    by (simp add: all_labels_def libName_defs)
  from selected_are_checked [of "[lib_guro, lib_mapo]"
      "(fresh_document (Label_render [lib_guro, lib_mapo] setSelected))(lib_guro \<mapsto> True)"
      setSelected] h
  show ?thesis
    by (simp add: model_defs libName_defs lib_defs)
qed

text \<open>
  C7: after a render, the checkbox of every label in the selection is to be checked. The
  effect does not achieve this for every selection: the Jongno library is in the
  selection of the Busan library and the Jongno library, and its checkbox exists and is
  unchecked before the effect runs, but the effect, after the first render as after a
  later one, ends in the TypeError of the entry before it and never sets that checkbox.
\<close>

theorem selected_not_reached:
  "lib_jongno \<in> set [lib_busan, lib_jongno]
   \<and> getElementById (fresh_document (Label_render [lib_busan, lib_jongno] setSelected))
       lib_jongno = Some False
   \<and> Label_mount [lib_busan, lib_jongno] setSelected = Inl TypeError
   \<and> Label_rerender (fresh_document (Label_render [lib_busan, lib_jongno] setSelected))
       [lib_busan, lib_jongno] = Inl TypeError"
  by (simp add: model_defs libName_defs lib_defs)

text \<open>
  C8, as claimed, fails in its second half: the effect only ever sets \<open>checked\<close> to
  true. Mounted with the Gangnam library selected and rendered again with the empty
  selection, the component still shows the Gangnam library's checkbox checked, although
  the label is absent from the selection.
\<close>

theorem stale_check_counterexample:
  "Label_mount [lib_gangnam] setSelected
     = Inr ((fresh_document (Label_render [lib_gangnam] setSelected))(lib_gangnam \<mapsto> True))
   \<and> Label_rerender
       ((fresh_document (Label_render [lib_gangnam] setSelected))(lib_gangnam \<mapsto> True)) []
     = Inr ((fresh_document (Label_render [lib_gangnam] setSelected))(lib_gangnam \<mapsto> True))
   \<and> lib_gangnam \<notin> set []
   \<and> getElementById
       ((fresh_document (Label_render [lib_gangnam] setSelected))(lib_gangnam \<mapsto> True))
       lib_gangnam = Some True"
  by (simp add: model_defs libName_defs lib_defs)

text \<open>
  C8, amended. After a render whose effect completes, every element whose id is in the
  selection shows as checked, and every other element shows what it showed before the
  render. After the first render, where every checkbox starts unchecked, a rendered
  checkbox is checked exactly when its label is in the selection.
\<close>

theorem render_checked_state:
  "(Label_rerender doc sel = Inr doc' \<longrightarrow>
      (\<forall>l. getElementById doc' l
             = (if l \<in> set sel then Some True else getElementById doc l)))
   \<and> (Label_mount sel f = Inr doc'' \<longrightarrow>
      (\<forall>l. getElementById doc'' l
             = (if l \<in> set all_labels then Some (l \<in> set sel) else None)))"
  using empty_not_label
  by (auto simp: Label_rerender_def Label_effect_Inr_iff Label_mount_Inr_iff
      getElementById_def)

theorem render_checked_state_witness:
  "Label_rerender
       ((fresh_document (Label_render [lib_gangnam] setSelected))(lib_gangnam \<mapsto> True))
       [lib_nowon]
     = Inr ((fresh_document (Label_render [lib_gangnam] setSelected))
              (lib_gangnam \<mapsto> True, lib_nowon \<mapsto> True))
   \<and> Label_mount [lib_nowon] setSelected
     = Inr ((fresh_document (Label_render [lib_nowon] setSelected))(lib_nowon \<mapsto> True))
   \<and> getElementById ((fresh_document (Label_render [lib_gangnam] setSelected))
              (lib_gangnam \<mapsto> True, lib_nowon \<mapsto> True)) lib_gangnam = Some True
   \<and> getElementById ((fresh_document (Label_render [lib_nowon] setSelected))
              (lib_nowon \<mapsto> True)) lib_gangnam = Some False"
proof -
  have 1: "Label_rerender
       ((fresh_document (Label_render [lib_gangnam] setSelected))(lib_gangnam \<mapsto> True))
       [lib_nowon]
     = Inr ((fresh_document (Label_render [lib_gangnam] setSelected))
              (lib_gangnam \<mapsto> True, lib_nowon \<mapsto> True))"
    by (simp add: model_defs libName_defs lib_defs)
  have 2: "Label_mount [lib_nowon] setSelected
     = Inr ((fresh_document (Label_render [lib_nowon] setSelected))(lib_nowon \<mapsto> True))"
    by (simp add: model_defs libName_defs lib_defs)
  from render_checked_state [of
      "(fresh_document (Label_render [lib_gangnam] setSelected))(lib_gangnam \<mapsto> True)"
      "[lib_nowon]"
      "(fresh_document (Label_render [lib_gangnam] setSelected))
              (lib_gangnam \<mapsto> True, lib_nowon \<mapsto> True)"
      setSelected
      "(fresh_document (Label_render [lib_nowon] setSelected))(lib_nowon \<mapsto> True)"] 1 2
  show ?thesis
    by (simp add: model_defs libName_defs lib_defs)
qed

subsection \<open>Sessions of toggles\<close>



end
